theory Spec2Isabelle
  imports Main
begin

section \<open>Data model\<close>

text \<open>
  The pull request snapshot of \<^verbatim>\<open>lib/update.js\<close>, with the fields the code reads.
  \<^verbatim>\<open>pullRequest.head.repo.owner.login\<close> is \<open>repo_owner_login\<close>, \<^verbatim>\<open>pullRequest.head.repo.name\<close>
  is \<open>repo_name\<close>. The repository objects are taken to be present: with a null
  \<^verbatim>\<open>head.repo\<close> the caller already fails when it builds the clone URL.
\<close>

record repository =
  repo_full_name :: string
  repo_name :: string
  repo_owner_login :: string

record head_branch =
  head_repo :: repository
  head_ref :: string
  head_sha :: string

record base_branch =
  base_repo :: repository
  base_ref :: string

record label =
  label_name :: string

record pull_request =
  pr_number :: int
  pr_title :: string
  pr_state :: string
  pr_merged :: bool
  pr_head :: head_branch
  pr_base :: base_branch
  pr_labels :: "label list"

text \<open>
  A JavaScript \<^verbatim>\<open>Date\<close> is its time value in milliseconds; \<open>None\<close> is an invalid date
  (time value NaN), which is what \<^verbatim>\<open>new Date(undefined)\<close> gives for a review without
  \<^verbatim>\<open>submitted_at\<close>. The fields \<open>ev_created_at\<close> and \<open>submitted_at\<close> hold the date that
  \<^verbatim>\<open>new Date(...)\<close> builds from the platform's string.
\<close>

type_synonym jsdate = "int option"

record issue_event =
  ev_event :: string
  ev_label :: string
  ev_created_at :: jsdate

record review =
  review_id :: int
  review_state :: string
  submitted_at :: jsdate

text \<open>
  The variable \<^verbatim>\<open>lastLabeledDate\<close> is declared without a value: \<open>None\<close> is
  \<^verbatim>\<open>undefined\<close>, \<open>Some d\<close> the date assigned in the loop. \<^verbatim>\<open>a < b\<close> on a date and such a
  value compares the time values as numbers, and is false as soon as one side is NaN;
  \<^verbatim>\<open>undefined\<close> converts to NaN.
\<close>

fun dateBefore :: "jsdate \<Rightarrow> jsdate option \<Rightarrow> bool" where
  "dateBefore (Some a) (Some (Some b)) = (a < b)"
| "dateBefore _ _ = False"

text \<open>
  A call of a collaborator (the platform client or the git module) is awaited: the
  promise resolves with a value or rejects with an error.
\<close>

datatype 'a promise = Resolves 'a | Rejects string

text \<open>
  The platform client, as the answers it gives to the requests of one pull request.
  \<open>pulls_get\<close> answers with the \<^verbatim>\<open>mergeable_state\<close> of the full pull request,
  \<open>repos_merge\<close> with the pair of \<^verbatim>\<open>status\<close> and \<^verbatim>\<open>data.sha\<close>, and
  \<open>pulls_getCommentsForReview\<close> with the comments of the review of the given id.
\<close>

record octokit_client =
  pulls_listReviews :: "review list promise"
  issues_listEvents :: "issue_event list promise"
  pulls_getCommentsForReview :: "int \<Rightarrow> string list promise"
  issues_update :: "unit promise"
  issues_createComment :: "unit promise"
  pulls_get :: "string promise"
  repos_merge :: "(int \<times> string) promise"

text \<open>
  The module \<^verbatim>\<open>./git\<close> is not part of the sources at hand: its functions are taken as
  parameters, one answer for each call that \<^verbatim>\<open>rebase\<close> makes (\<^verbatim>\<open>git.head\<close> is called
  twice, before and after the rebase).
\<close>

record git_module =
  git_clone :: "unit promise"
  git_fetch :: "unit promise"
  git_fetchUntilMergeBase :: "unit promise"
  git_head :: "string promise"
  git_sha :: "string promise"
  git_rebase :: "unit promise"
  git_head_after :: "string promise"
  git_push :: "unit promise"

record config =
  automerge :: string
  autorebase :: string
  skipAdvancedApprovalValidation :: string
  labels_blocking :: "string list"
  labels_required :: "string list"

record action_context =
  octokit :: "octokit_client option"
  token :: string
  config :: config

text \<open>
  Every request sent to a collaborator is recorded, in order, with its arguments;
  \<open>Sleep\<close> is the settle delay \<^verbatim>\<open>setTimeout(..., 30000)\<close>. The platform requests carry the
  owner, the repository and the number of the pull request; \<open>ReposMerge\<close> carries the
  owner, the repository and the arguments \<^verbatim>\<open>base\<close> and \<^verbatim>\<open>head\<close> in this order. The git calls
  carry their arguments in the order of the source; the directory and the clone URL may be
  null (\<open>None\<close>). Log lines are not recorded.
\<close>

datatype call =
    ListReviews string string int
  | ListEvents string string int
  | GetCommentsForReview string string int int
  | IssuesUpdate string string int "string list"
  | CreateComment string string int string
  | PullsGet string string int
  | ReposMerge string string string string
  | Sleep nat
  | GitClone "string option" "string option" string
  | GitFetch "string option" string
  | GitFetchUntilMergeBase "string option" string nat
  | GitHead "string option"
  | GitSha "string option" string
  | GitRebase "string option" string
  | GitPush "string option" bool string

text \<open>
  How an async function ends: it returns a value, throws \<^verbatim>\<open>NeutralExitError\<close> (the benign
  skip), or throws any other error (fatal for this pull request). A run is its outcome
  together with the calls it made.
\<close>

datatype 'a outcome = Returns 'a | NeutralExitError | Error string

type_synonym 'a run = "'a outcome \<times> call list"

definition await :: "call \<Rightarrow> 'a promise \<Rightarrow> 'a run" where
  "await c p = (case p of Resolves x \<Rightarrow> (Returns x, [c]) | Rejects e \<Rightarrow> (Error e, [c]))"

definition andThen :: "'a run \<Rightarrow> ('a \<Rightarrow> 'b run) \<Rightarrow> 'b run" where
  "andThen m f =
     (case m of
        (Returns x, cs) \<Rightarrow> (case f x of (r, ds) \<Rightarrow> (r, cs @ ds))
      | (NeutralExitError, cs) \<Rightarrow> (NeutralExitError, cs)
      | (Error e, cs) \<Rightarrow> (Error e, cs))"

text \<open>JavaScript's \<^verbatim>\<open>!x\<close> on a string that may be null: true for null and for the empty string.\<close>

definition falsy :: "string option \<Rightarrow> bool" where
  "falsy s = (s = None \<or> s = Some [])"

definition FETCH_TIMEOUT :: nat where
  "FETCH_TIMEOUT = 60000"

definition AUTOMERGE_LABEL_DROPPED :: string where
  "AUTOMERGE_LABEL_DROPPED =
     ''Automerge label was dropped and added again due to the fact that either someone requested changes'' @
     '', you do not have a review, or someone who reviewed and approved your pr left comments. ''"

definition owner_of :: "pull_request \<Rightarrow> string" where
  "owner_of pr = repo_owner_login (head_repo (pr_head pr))"

definition repo_of :: "pull_request \<Rightarrow> string" where
  "repo_of pr = repo_name (head_repo (pr_head pr))"

section \<open>lib/update.js\<close>

subsection \<open>isPrReviewed\<close>

text \<open>
  The functions of \<^verbatim>\<open>update.js\<close> take the client as it is handed over, possibly null
  (\<open>None\<close>): the first request on a null client throws a \<^verbatim>\<open>TypeError\<close>, an error that is
  not the benign skip. \<^verbatim>\<open>actions.includes(x)\<close> is \<open>x \<in> set actions\<close>.

  The first loop of \<^verbatim>\<open>isPrReviewed\<close>, over the reversed events: the date of the first
  \<^verbatim>\<open>labeled\<close> event whose label is one of the actions, or \<^verbatim>\<open>undefined\<close>.
  \<open>labeledWithAction\<close> is the test of that loop.
\<close>

definition labeledWithAction :: "string list \<Rightarrow> issue_event \<Rightarrow> bool" where
  "labeledWithAction actions e = (ev_event e = ''labeled'' \<and> ev_label e \<in> set actions)"

fun lastLabeledDate :: "string list \<Rightarrow> issue_event list \<Rightarrow> jsdate option" where
  "lastLabeledDate actions [] = None"
| "lastLabeledDate actions (e # es) =
     (if labeledWithAction actions e then Some (ev_created_at e)
      else lastLabeledDate actions es)"

text \<open>
  The second loop, over the reversed reviews, with the flag
  \<^verbatim>\<open>needsChangesAfterLabeled\<close> as accumulator. The comments of a review are requested
  before the flag is read, so the request is made for every review of state
  \<^verbatim>\<open>CHANGES_REQUESTED\<close> or \<^verbatim>\<open>APPROVED\<close> the loop reaches.
\<close>

fun reviewLoop ::
  "octokit_client \<Rightarrow> pull_request \<Rightarrow> jsdate option \<Rightarrow> review list \<Rightarrow> bool \<Rightarrow> bool run" where
  "reviewLoop oc pr lastLabeled [] needsChangesAfterLabeled =
     (Returns needsChangesAfterLabeled, [])"
| "reviewLoop oc pr lastLabeled (r # rs) needsChangesAfterLabeled =
     (if dateBefore (submitted_at r) lastLabeled then (Returns needsChangesAfterLabeled, [])
      else if review_state r = ''CHANGES_REQUESTED'' \<or> review_state r = ''APPROVED'' then
        (case pulls_getCommentsForReview oc (review_id r) of
           Rejects e \<Rightarrow>
             (Error e, [GetCommentsForReview (owner_of pr) (repo_of pr) (pr_number pr) (review_id r)])
         | Resolves comments \<Rightarrow>
             (case reviewLoop oc pr lastLabeled rs (needsChangesAfterLabeled \<or> length comments \<noteq> 0) of
                (res, cs) \<Rightarrow>
                  (res, GetCommentsForReview (owner_of pr) (repo_of pr) (pr_number pr) (review_id r) # cs)))
      else reviewLoop oc pr lastLabeled rs True)"

definition isPrReviewed :: "octokit_client option \<Rightarrow> pull_request \<Rightarrow> string list \<Rightarrow> bool run" where
  "isPrReviewed client pr actions =
     (case client of
        None \<Rightarrow> (Error ''TypeError'', [])
      | Some oc \<Rightarrow>
          andThen (await (ListReviews (owner_of pr) (repo_of pr) (pr_number pr)) (pulls_listReviews oc))
            (\<lambda>reviews.
          andThen (await (ListEvents (owner_of pr) (repo_of pr) (pr_number pr)) (issues_listEvents oc))
            (\<lambda>events.
          andThen (reviewLoop oc pr (lastLabeledDate actions (rev events)) (rev reviews) False)
            (\<lambda>needsChangesAfterLabeled. (Returns (\<not> needsChangesAfterLabeled), [])))))"

subsection \<open>dropAutoMergeLabel\<close>

definition dropAutoMergeLabel :: "octokit_client option \<Rightarrow> pull_request \<Rightarrow> string list \<Rightarrow> unit run" where
  "dropAutoMergeLabel client pr actions =
     (let labels = map label_name (filter (\<lambda>l. label_name l \<notin> set actions) (pr_labels pr)) in
      case client of
        None \<Rightarrow> (Error ''TypeError'', [])
      | Some oc \<Rightarrow>
          andThen (await (IssuesUpdate (owner_of pr) (repo_of pr) (pr_number pr) labels) (issues_update oc))
            (\<lambda>patched.
          andThen (await (CreateComment (owner_of pr) (repo_of pr) (pr_number pr) AUTOMERGE_LABEL_DROPPED)
                     (issues_createComment oc))
            (\<lambda>comment. (Returns (), []))))"

subsection \<open>merge\<close>

definition pullRequestState :: "octokit_client option \<Rightarrow> pull_request \<Rightarrow> string run" where
  "pullRequestState client pr =
     (case client of
        None \<Rightarrow> (Error ''TypeError'', [])
      | Some oc \<Rightarrow> await (PullsGet (owner_of pr) (repo_of pr) (pr_number pr)) (pulls_get oc))"

definition merge :: "octokit_client option \<Rightarrow> pull_request \<Rightarrow> string run" where
  "merge client pr =
     andThen (pullRequestState client pr) (\<lambda>state.
       if state = ''behind'' then
         (case client of
            None \<Rightarrow> (Error ''TypeError'', [])
          | Some oc \<Rightarrow>
              andThen (await (ReposMerge (owner_of pr) (repo_of pr) (head_ref (pr_head pr)) (base_ref (pr_base pr)))
                         (repos_merge oc))
                (\<lambda>(status, sha).
                   if status = 204 then (Returns (head_sha (pr_head pr)), [])
                   else (Returns sha, [Sleep 30000])))
       else if state = ''clean'' \<or> state = ''has_hooks'' then (Returns (head_sha (pr_head pr)), [])
       else (NeutralExitError, []))"

subsection \<open>rebase\<close>

definition rebase :: "git_module \<Rightarrow> string option \<Rightarrow> string option \<Rightarrow> pull_request \<Rightarrow> string run" where
  "rebase git dir url pr =
     (let headRef = head_ref (pr_head pr); baseRef = base_ref (pr_base pr) in
      andThen (await (GitClone url dir headRef) (git_clone git)) (\<lambda>u1.
      andThen (await (GitFetch dir baseRef) (git_fetch git)) (\<lambda>u2.
      andThen (await (GitFetchUntilMergeBase dir baseRef FETCH_TIMEOUT) (git_fetchUntilMergeBase git)) (\<lambda>u3.
      andThen (await (GitHead dir) (git_head git)) (\<lambda>head.
        if head \<noteq> head_sha (pr_head pr) then (NeutralExitError, [])
        else
          andThen (await (GitSha dir baseRef) (git_sha git)) (\<lambda>onto.
          andThen (await (GitRebase dir onto) (git_rebase git)) (\<lambda>u4.
          andThen (await (GitHead dir) (git_head_after git)) (\<lambda>newHead.
          andThen
            (if newHead = head then (Returns (), [])
             else andThen (await (GitPush dir True headRef) (git_push git)) (\<lambda>u5. (Returns (), [Sleep 30000])))
            (\<lambda>u6. (Returns newHead, []))))))))))"

subsection \<open>update\<close>

text \<open>
  The loop of \<^verbatim>\<open>update\<close> over the labels, with the variables \<^verbatim>\<open>action\<close> (\<open>None\<close> is
  \<^verbatim>\<open>null\<close>) and \<^verbatim>\<open>skipAdvancedApprovalValidation\<close> as accumulators. \<open>Inl\<close> is the message
  of the error thrown inside the loop.
\<close>

fun scanLabels ::
  "string list \<Rightarrow> string \<Rightarrow> label list \<Rightarrow> string option \<Rightarrow> bool \<Rightarrow> string + (string option \<times> bool)" where
  "scanLabels actions skipName [] action skip = Inr (action, skip)"
| "scanLabels actions skipName (l # ls) action skip =
     (if label_name l \<in> set actions then
        (case action of
           None \<Rightarrow>
             scanLabels actions skipName ls (Some (label_name l))
               (if label_name l = skipName then True else skip)
         | Some a \<Rightarrow> Inl (''ambiguous labels: '' @ a @ '' + '' @ label_name l))
      else scanLabels actions skipName ls action (if label_name l = skipName then True else skip))"

definition update ::
  "git_module \<Rightarrow> action_context \<Rightarrow> string option \<Rightarrow> string option \<Rightarrow> pull_request \<Rightarrow> string run" where
  "update git ctx dir url pr =
     (if pr_merged pr then (NeutralExitError, [])
      else if repo_full_name (head_repo (pr_head pr)) \<noteq> repo_full_name (base_repo (pr_base pr))
        then (NeutralExitError, [])
      else
        (let actions = [automerge (config ctx), autorebase (config ctx)] in
         case scanLabels actions (skipAdvancedApprovalValidation (config ctx)) (pr_labels pr) None False of
           Inl msg \<Rightarrow> (Error msg, [])
         | Inr (None, skip) \<Rightarrow> (NeutralExitError, [])
         | Inr (Some action, skip) \<Rightarrow>
             andThen
               (if \<not> skip then
                  andThen (isPrReviewed (octokit ctx) pr actions) (\<lambda>isReviewedCorrectly.
                    if \<not> isReviewedCorrectly then
                      andThen (dropAutoMergeLabel (octokit ctx) pr actions) (\<lambda>u. (NeutralExitError, []))
                    else if octokit ctx = None \<or> falsy dir \<or> falsy url then (Error ''invalid arguments!'', [])
                    else (Returns (), []))
                else (Returns (), []))
               (\<lambda>u.
                  if action = automerge (config ctx) then merge (octokit ctx) pr
                  else if action = autorebase (config ctx) then rebase git dir url pr
                  else (Error (''invalid action: '' @ action), []))))"

section \<open>The per-pull-request handler of the orchestrator\<close>

text \<open>
  \<^verbatim>\<open>skipPullRequest\<close>: true when a label of the pull request is a blocking label, or a
  required label is not among the pull request's labels.
\<close>

definition skipPullRequest :: "action_context \<Rightarrow> pull_request \<Rightarrow> bool" where
  "skipPullRequest ctx pr =
     (if list_ex (\<lambda>l. label_name l \<in> set (labels_blocking (config ctx))) (pr_labels pr) then True
      else if list_ex (\<lambda>required. required \<notin> set (map label_name (pr_labels pr)))
                (labels_required (config ctx)) then True
      else False)"

text \<open>
  \<^verbatim>\<open>updateAndMergePullRequest\<close>. The temporary-directory provider \<^verbatim>\<open>tmpdir\<close> of
  \<^verbatim>\<open>./common\<close> and the function \<^verbatim>\<open>merge\<close> of \<^verbatim>\<open>./merge\<close> (not the \<^verbatim>\<open>merge\<close> of
  \<^verbatim>\<open>update.js\<close>) are not part of the sources at hand; they are parameters.
\<close>

definition updateAndMergePullRequest ::
  "((string option \<Rightarrow> string run) \<Rightarrow> string run) \<Rightarrow> (action_context \<Rightarrow> pull_request \<Rightarrow> string \<Rightarrow> unit run) \<Rightarrow>
   git_module \<Rightarrow> action_context \<Rightarrow> pull_request \<Rightarrow> unit run" where
  "updateAndMergePullRequest tmpdir mergePullRequest git ctx pr =
     (if pr_state pr \<noteq> ''open'' then (NeutralExitError, [])
      else if skipPullRequest ctx pr then (NeutralExitError, [])
      else
        (let repo = repo_full_name (head_repo (pr_head pr));
             cloneUrl = ''https://x-access-token:'' @ token ctx @ ''@github.com/'' @ repo @ ''.git'' in
         andThen (tmpdir (\<lambda>path. update git ctx path (Some cloneUrl) pr))
           (\<lambda>head. mergePullRequest ctx pr head)))"

section \<open>Notions used in the statements\<close>

text \<open>
  A request resolves; the comments attached to a review, as the platform answers; and a
  destabilizing review in the sense of the loop body: a review whose state is neither
  \<^verbatim>\<open>CHANGES_REQUESTED\<close> nor \<^verbatim>\<open>APPROVED\<close>, or a review of one of these states that
  carries at least one comment.
\<close>

fun resolves :: "'a promise \<Rightarrow> bool" where
  "resolves (Resolves x) = True"
| "resolves (Rejects e) = False"

definition attachedComments :: "octokit_client \<Rightarrow> review \<Rightarrow> string list" where
  "attachedComments oc r =
     (case pulls_getCommentsForReview oc (review_id r) of Resolves cs \<Rightarrow> cs | Rejects e \<Rightarrow> [])"

definition destabilizing :: "octokit_client \<Rightarrow> review \<Rightarrow> bool" where
  "destabilizing oc r =
     (if review_state r = ''CHANGES_REQUESTED'' \<or> review_state r = ''APPROVED''
      then attachedComments oc r \<noteq> [] else True)"

text \<open>The requests that only read the review history of a pull request.\<close>

fun isReviewQuery :: "call \<Rightarrow> bool" where
  "isReviewQuery (ListReviews owner repo n) = True"
| "isReviewQuery (ListEvents owner repo n) = True"
| "isReviewQuery (GetCommentsForReview owner repo n i) = True"
| "isReviewQuery c = False"

section \<open>Example data\<close>

definition ex_repo :: repository where
  "ex_repo = \<lparr>repo_full_name = ''acme/widgets'', repo_name = ''widgets'', repo_owner_login = ''acme''\<rparr>"

definition ex_fork :: repository where
  "ex_fork = \<lparr>repo_full_name = ''mallory/widgets'', repo_name = ''widgets'', repo_owner_login = ''mallory''\<rparr>"

definition ex_pr :: "string list \<Rightarrow> pull_request" where
  "ex_pr names =
     \<lparr>pr_number = 42, pr_title = ''Add gears'', pr_state = ''open'', pr_merged = False,
      pr_head = \<lparr>head_repo = ex_repo, head_ref = ''gears'', head_sha = ''aaa111''\<rparr>,
      pr_base = \<lparr>base_repo = ex_repo, base_ref = ''master''\<rparr>,
      pr_labels = map (\<lambda>n. \<lparr>label_name = n\<rparr>) names\<rparr>"

definition ex_octokit ::
  "review list \<Rightarrow> issue_event list \<Rightarrow> (int \<Rightarrow> string list) \<Rightarrow> string \<Rightarrow> int \<times> string \<Rightarrow> octokit_client" where
  "ex_octokit reviews events comments state merged =
     \<lparr>pulls_listReviews = Resolves reviews, issues_listEvents = Resolves events,
      pulls_getCommentsForReview = (\<lambda>i. Resolves (comments i)),
      issues_update = Resolves (), issues_createComment = Resolves (),
      pulls_get = Resolves state, repos_merge = Resolves merged\<rparr>"

definition ex_config :: config where
  "ex_config =
     \<lparr>automerge = ''automerge'', autorebase = ''autorebase'',
      skipAdvancedApprovalValidation = ''skip-validation'',
      labels_blocking = [''wip''], labels_required = []\<rparr>"

definition ex_git :: "string \<Rightarrow> string \<Rightarrow> git_module" where
  "ex_git h h' =
     \<lparr>git_clone = Resolves (), git_fetch = Resolves (), git_fetchUntilMergeBase = Resolves (),
      git_head = Resolves h, git_sha = Resolves ''bbb222'', git_rebase = Resolves (),
      git_head_after = Resolves h', git_push = Resolves ()\<rparr>"

definition ex_ctx :: "octokit_client option \<Rightarrow> action_context" where
  "ex_ctx oc = \<lparr>octokit = oc, token = ''t0k'', config = ex_config\<rparr>"

definition ex_labeled :: "string \<Rightarrow> int \<Rightarrow> issue_event" where
  "ex_labeled name t = \<lparr>ev_event = ''labeled'', ev_label = name, ev_created_at = Some t\<rparr>"

definition ex_review :: "int \<Rightarrow> string \<Rightarrow> int \<Rightarrow> review" where
  "ex_review i state t = \<lparr>review_id = i, review_state = state, submitted_at = Some t\<rparr>"

section \<open>Basic facts\<close>

lemma dateBefore_undefined: "dateBefore d None = False"
  by (cases d) simp_all

lemma await_Resolves: "await c (Resolves x) = (Returns x, [c])"
  by (simp add: await_def)

lemma await_Rejects: "await c (Rejects e) = (Error e, [c])"
  by (simp add: await_def)

lemma andThen_Returns: "andThen (Returns x, cs) f = (fst (f x), cs @ snd (f x))"
  by (simp add: andThen_def split: prod.split)

lemma andThen_NeutralExitError: "andThen (NeutralExitError, cs) f = (NeutralExitError, cs)"
  by (simp add: andThen_def)

lemma andThen_Error: "andThen (Error e, cs) f = (Error e, cs)"
  by (simp add: andThen_def)

lemma andThen_fst: "fst m = Returns x \<Longrightarrow> fst (andThen m f) = fst (f x)"
  by (cases m) (simp add: andThen_Returns)

lemmas run_simps = await_Resolves await_Rejects andThen_Returns andThen_NeutralExitError andThen_Error

lemma reviewLoop_result:
  assumes "\<forall>r\<in>set rs. resolves (pulls_getCommentsForReview oc (review_id r))"
  shows "fst (reviewLoop oc pr d rs needs) =
    Returns (needs \<or> (\<exists>r\<in>set (takeWhile (\<lambda>r. \<not> dateBefore (submitted_at r) d) rs). destabilizing oc r))"
  using assms
proof (induction rs arbitrary: needs)
  case Nil
  then show ?case by simp
next
  case (Cons r rs)
  from Cons.prems obtain cs where cs: "pulls_getCommentsForReview oc (review_id r) = Resolves cs"
    by (cases "pulls_getCommentsForReview oc (review_id r)") auto
  from Cons.prems have rest: "\<forall>r\<in>set rs. resolves (pulls_getCommentsForReview oc (review_id r))"
    by simp
  show ?case
  proof (cases "dateBefore (submitted_at r) d")
    case True
    then show ?thesis by simp
  next
    case False
    show ?thesis
    proof (cases "review_state r = ''CHANGES_REQUESTED'' \<or> review_state r = ''APPROVED''")
      case True
      with False cs Cons.IH [OF rest, of "needs \<or> length cs \<noteq> 0"] show ?thesis
        by (auto simp: destabilizing_def attachedComments_def split: prod.split)
    next
      case False
      with \<open>\<not> dateBefore (submitted_at r) d\<close> Cons.IH [OF rest, of True] show ?thesis
        by (auto simp: destabilizing_def)
    qed
  qed
qed

lemma reviewLoop_calls: "list_all isReviewQuery (snd (reviewLoop oc pr d rs needs))"
  by (induction rs arbitrary: needs) (auto simp: case_prod_beta split: promise.split)

lemma andThen_calls:
  assumes "list_all P (snd m)" and "\<And>x. list_all P (snd (f x))"
  shows "list_all P (snd (andThen m f))"
proof (cases m)
  case (Pair res cs)
  with assms show ?thesis
    by (cases res) (simp_all add: run_simps)
qed

lemma await_calls: "P c \<Longrightarrow> list_all P (snd (await c p))"
  by (cases p) (simp_all add: run_simps)

lemma isPrReviewed_calls: "list_all isReviewQuery (snd (isPrReviewed client pr actions))"
proof (cases client)
  case None
  then show ?thesis by (simp add: isPrReviewed_def)
next
  case (Some oc)
  show ?thesis
    unfolding isPrReviewed_def Some option.case
    by (intro andThen_calls await_calls reviewLoop_calls) simp_all
qed

lemma isPrReviewed_result:
  assumes "pulls_listReviews oc = Resolves reviews" and "issues_listEvents oc = Resolves events"
    and "\<forall>r\<in>set reviews. resolves (pulls_getCommentsForReview oc (review_id r))"
  shows "fst (isPrReviewed (Some oc) pr actions) =
    Returns (\<not> (\<exists>r\<in>set (takeWhile (\<lambda>r. \<not> dateBefore (submitted_at r) (lastLabeledDate actions (rev events)))
       (rev reviews)). destabilizing oc r))"
proof -
  have "\<forall>r\<in>set (rev reviews). resolves (pulls_getCommentsForReview oc (review_id r))"
    using assms(3) by simp
  from reviewLoop_result [OF this, of pr "lastLabeledDate actions (rev events)" False]
  show ?thesis
    using assms(1,2) by (simp add: isPrReviewed_def run_simps andThen_fst)
qed

lemma lastLabeledDate_none:
  "\<forall>e\<in>set es. \<not> labeledWithAction actions e \<Longrightarrow> lastLabeledDate actions es = None"
  by (induction es) auto

lemma lastLabeledDate_append:
  "lastLabeledDate actions (es @ e # es') =
     (case lastLabeledDate actions es of None \<Rightarrow> lastLabeledDate actions (e # es') | Some d \<Rightarrow> Some d)"
  by (induction es) auto

lemma lastLabeledDate_rev:
  assumes "events = earlier @ e # later" and "labeledWithAction actions e"
    and "\<forall>e'\<in>set later. \<not> labeledWithAction actions e'"
  shows "lastLabeledDate actions (rev events) = Some (ev_created_at e)"
  using assms by (simp add: lastLabeledDate_append lastLabeledDate_none)

lemma scanLabels_second:
  assumes "filter (\<lambda>l. label_name l \<in> set actions) ls = l # rest"
  shows "scanLabels actions skipName ls (Some a) skip =
    Inl (''ambiguous labels: '' @ a @ '' + '' @ label_name l)"
  using assms
proof (induction ls arbitrary: skip)
  case Nil
  then show ?case by simp
next
  case (Cons x ls)
  then show ?case by (cases "label_name x \<in> set actions") auto
qed

lemma scanLabels_two:
  assumes "filter (\<lambda>l. label_name l \<in> set actions) ls = l1 # l2 # rest"
  shows "scanLabels actions skipName ls None skip =
    Inl (''ambiguous labels: '' @ label_name l1 @ '' + '' @ label_name l2)"
  using assms
proof (induction ls arbitrary: skip)
  case Nil
  then show ?case by simp
next
  case (Cons x ls)
  show ?case
  proof (cases "label_name x \<in> set actions")
    case True
    with Cons.prems have "x = l1" and "filter (\<lambda>l. label_name l \<in> set actions) ls = l2 # rest"
      by simp_all
    with True scanLabels_second [of actions ls l2 rest skipName "label_name l1"] show ?thesis
      by simp
  next
    case False
    with Cons show ?thesis by simp
  qed
qed

lemma scanLabels_rest:
  assumes "filter (\<lambda>l. label_name l \<in> set actions) ls = []"
  shows "scanLabels actions skipName ls action skip =
    Inr (action, skip \<or> skipName \<in> set (map label_name ls))"
  using assms
proof (induction ls arbitrary: skip)
  case Nil
  then show ?case by simp
next
  case (Cons x ls)
  then show ?case by (cases "label_name x \<in> set actions") auto
qed

lemma scanLabels_one:
  assumes "filter (\<lambda>l. label_name l \<in> set actions) ls = [l]"
  shows "scanLabels actions skipName ls None skip =
    Inr (Some (label_name l), skip \<or> skipName \<in> set (map label_name ls))"
  using assms
proof (induction ls arbitrary: skip)
  case Nil
  then show ?case by simp
next
  case (Cons x ls)
  show ?case
  proof (cases "label_name x \<in> set actions")
    case True
    with Cons.prems have "x = l" and "filter (\<lambda>l. label_name l \<in> set actions) ls = []"
      by simp_all
    with True scanLabels_rest [of actions ls skipName "Some (label_name l)"] show ?thesis
      by auto
  next
    case False
    with Cons show ?thesis by auto
  qed
qed

lemma visited_reviews:
  assumes "\<forall>r'\<in>set newer. \<not> dateBefore (submitted_at r') d"
    and "\<not> dateBefore (submitted_at r) d"
  shows "takeWhile (\<lambda>r. \<not> dateBefore (submitted_at r) d) (rev (older @ r # newer)) =
    rev newer @ r # takeWhile (\<lambda>r. \<not> dateBefore (submitted_at r) d) (rev older)"
proof -
  let ?P = "\<lambda>r. \<not> dateBefore (submitted_at r) d"
  have "takeWhile ?P (rev newer @ r # rev older) = rev newer @ takeWhile ?P (r # rev older)"
    by (rule takeWhile_append2) (use assms(1) in simp)
  with assms(2) show ?thesis by simp
qed

section \<open>Review stability without a label event (C1)\<close>

text \<open>
  Claim C1, as amended. When the event timeline of a pull request holds no \<^verbatim>\<open>labeled\<close>
  event for an action label (and the platform answers every request), the reference
  date stays \<^verbatim>\<open>undefined\<close>, no review compares as submitted before it, and the loop
  inspects every review: \<^verbatim>\<open>isPrReviewed\<close> returns true exactly when no review of the
  pull request is destabilizing.
\<close>

theorem isPrReviewed_no_label_event:
  assumes "pulls_listReviews oc = Resolves reviews"
    and "issues_listEvents oc = Resolves events"
    and "\<forall>e\<in>set events. \<not> labeledWithAction actions e"
    and "\<forall>r\<in>set reviews. resolves (pulls_getCommentsForReview oc (review_id r))"
  shows "lastLabeledDate actions (rev events) = None \<and>
    fst (isPrReviewed (Some oc) pr actions) = Returns (\<forall>r\<in>set reviews. \<not> destabilizing oc r)"
proof -
  from assms(3) have undefined: "lastLabeledDate actions (rev events) = None"
    by (simp add: lastLabeledDate_none)
  have "set (takeWhile (\<lambda>r. \<not> dateBefore (submitted_at r) None) (rev reviews)) = set reviews"
    by (simp add: dateBefore_undefined takeWhile_eq_all_conv [THEN iffD2])
  with isPrReviewed_result [OF assms(1,2,4), of pr actions] undefined show ?thesis
    by simp
qed

theorem isPrReviewed_no_label_event_witness:
  "fst (isPrReviewed
      (Some (ex_octokit [ex_review 1 ''APPROVED'' 5] [ex_labeled ''bug'' 1] (\<lambda>i. []) ''clean'' (204, [])))
      (ex_pr [''automerge'']) [''automerge'', ''autorebase'']) = Returns True"
  using isPrReviewed_no_label_event
    [of "ex_octokit [ex_review 1 ''APPROVED'' 5] [ex_labeled ''bug'' 1] (\<lambda>i. []) ''clean'' (204, [])"
        "[ex_review 1 ''APPROVED'' 5]" "[ex_labeled ''bug'' 1]" "[''automerge'', ''autorebase'']"
        "ex_pr [''automerge'']"]
  by (simp add: ex_octokit_def ex_review_def ex_labeled_def labeledWithAction_def destabilizing_def
      attachedComments_def)

text \<open>
  C1 as stated fails: without any action-label event, an approving review that carries
  one comment makes \<^verbatim>\<open>isPrReviewed\<close> return false.
\<close>

theorem isPrReviewed_no_label_event_counterexample:
  "lastLabeledDate [''automerge'', ''autorebase''] (rev [ex_labeled ''bug'' 1]) = None \<and>
   isPrReviewed
      (Some (ex_octokit [ex_review 1 ''APPROVED'' 5] [ex_labeled ''bug'' 1] (\<lambda>i. [''please rename'']) ''clean'' (204, [])))
      (ex_pr [''automerge'']) [''automerge'', ''autorebase''] =
     (Returns False,
      [ListReviews ''acme'' ''widgets'' 42, ListEvents ''acme'' ''widgets'' 42,
       GetCommentsForReview ''acme'' ''widgets'' 42 1])"
  by (simp add: isPrReviewed_def run_simps ex_octokit_def ex_review_def ex_labeled_def ex_pr_def
      ex_repo_def labeledWithAction_def owner_of_def repo_of_def)


section \<open>A review requesting changes after the label (C2)\<close>

text \<open>
  Claim C2, as amended. Let the most recent \<^verbatim>\<open>labeled\<close> event for an action label be at
  time \<open>T\<close>, let a review of state \<^verbatim>\<open>CHANGES_REQUESTED\<close> be submitted at or after \<open>T\<close>, and
  let no review listed after it (the newer ones, which the scan meets first) be submitted
  before \<open>T\<close>. If the review carries at least one attached comment, \<^verbatim>\<open>isPrReviewed\<close>
  returns false. If it carries none, it does not count by itself: \<^verbatim>\<open>isPrReviewed\<close> returns
  true when no other review that is not submitted before \<open>T\<close> is destabilizing.
\<close>

theorem isPrReviewed_changes_requested_after_label:
  assumes "pulls_listReviews oc = Resolves (older @ r # newer)"
    and "issues_listEvents oc = Resolves (earlier @ e # later)"
    and "labeledWithAction actions e" and "ev_created_at e = Some T"
    and "\<forall>e'\<in>set later. \<not> labeledWithAction actions e'"
    and "review_state r = ''CHANGES_REQUESTED''" and "submitted_at r = Some t" and "T \<le> t"
    and "\<forall>r'\<in>set newer. \<not> dateBefore (submitted_at r') (Some (Some T))"
    and "\<forall>r'\<in>set (older @ r # newer). resolves (pulls_getCommentsForReview oc (review_id r'))"
  shows "(attachedComments oc r \<noteq> [] \<longrightarrow> fst (isPrReviewed (Some oc) pr actions) = Returns False) \<and>
    (attachedComments oc r = [] \<and>
     (\<forall>r'\<in>set (older @ newer). \<not> dateBefore (submitted_at r') (Some (Some T)) \<longrightarrow> \<not> destabilizing oc r')
       \<longrightarrow> fst (isPrReviewed (Some oc) pr actions) = Returns True)"
proof -
  let ?d = "Some (Some T)"
  let ?P = "\<lambda>r. \<not> dateBefore (submitted_at r) ?d"
  let ?scanned = "takeWhile ?P (rev (older @ r # newer))"
  have date: "lastLabeledDate actions (rev (earlier @ e # later)) = ?d"
    using lastLabeledDate_rev [OF refl assms(3,5)] assms(4) by simp
  have reached: "?P r"
    using assms(7,8) by simp
  have scanned: "?scanned = rev newer @ r # takeWhile ?P (rev older)"
    using visited_reviews [OF assms(9) reached] .
  have result: "fst (isPrReviewed (Some oc) pr actions) = Returns (\<not> (\<exists>r'\<in>set ?scanned. destabilizing oc r'))"
    using isPrReviewed_result [OF assms(1,2,10), of pr actions] date by simp
  have gated: "destabilizing oc r = (attachedComments oc r \<noteq> [])"
    using assms(6) by (simp add: destabilizing_def)
  have with_comments: "fst (isPrReviewed (Some oc) pr actions) = Returns False"
    if "attachedComments oc r \<noteq> []"
  proof -
    have "r \<in> set ?scanned"
      unfolding scanned by simp
    with that gated show ?thesis
      unfolding result by blast
  qed
  have without_comments: "fst (isPrReviewed (Some oc) pr actions) = Returns True"
    if none: "attachedComments oc r = []"
      and others: "\<forall>r'\<in>set (older @ newer). ?P r' \<longrightarrow> \<not> destabilizing oc r'"
  proof -
    have "\<not> destabilizing oc r'" if "r' \<in> set ?scanned" for r'
    proof -
      from that have "r' \<in> set (rev newer @ r # takeWhile ?P (rev older))"
        unfolding scanned .
      then have "r' = r \<or> r' \<in> set newer \<or> r' \<in> set (takeWhile ?P (rev older))"
        by auto
      moreover have "\<not> destabilizing oc r"
        using none gated by simp
      moreover have "\<not> destabilizing oc x" if "x \<in> set newer" for x
        using that assms(9) others by simp
      moreover have "\<not> destabilizing oc x" if "x \<in> set (takeWhile ?P (rev older))" for x
      proof -
        from that have "x \<in> set older" and "?P x"
          by (auto dest: set_takeWhileD)
        with others show ?thesis by simp
      qed
      ultimately show ?thesis by blast
    qed
    then show ?thesis
      unfolding result by blast
  qed
  from with_comments without_comments show ?thesis by blast
qed

theorem isPrReviewed_changes_requested_after_label_witness:
  "fst (isPrReviewed
      (Some (ex_octokit [ex_review 1 ''APPROVED'' 50, ex_review 2 ''CHANGES_REQUESTED'' 100]
         [ex_labeled ''autorebase'' 100]
         (\<lambda>i. if i = 2 then [''please rename''] else []) ''clean'' (204, [])))
      (ex_pr [''autorebase'']) [''automerge'', ''autorebase'']) = Returns False \<and>
   fst (isPrReviewed
      (Some (ex_octokit [ex_review 1 ''APPROVED'' 50, ex_review 2 ''CHANGES_REQUESTED'' 100]
         [ex_labeled ''autorebase'' 100]
         (\<lambda>i. if i = 1 then [''please rename''] else []) ''clean'' (204, [])))
      (ex_pr [''autorebase'']) [''automerge'', ''autorebase'']) = Returns True"
  using
    isPrReviewed_changes_requested_after_label
      [of "ex_octokit [ex_review 1 ''APPROVED'' 50, ex_review 2 ''CHANGES_REQUESTED'' 100]
         [ex_labeled ''autorebase'' 100]
         (\<lambda>i. if i = 2 then [''please rename''] else []) ''clean'' (204, [])"
        "[ex_review 1 ''APPROVED'' 50]" "ex_review 2 ''CHANGES_REQUESTED'' 100" "[]"
        "[]" "ex_labeled ''autorebase'' 100" "[]"
        "[''automerge'', ''autorebase'']" 100 100 "ex_pr [''autorebase'']"]
    isPrReviewed_changes_requested_after_label
      [of "ex_octokit [ex_review 1 ''APPROVED'' 50, ex_review 2 ''CHANGES_REQUESTED'' 100]
         [ex_labeled ''autorebase'' 100]
         (\<lambda>i. if i = 1 then [''please rename''] else []) ''clean'' (204, [])"
        "[ex_review 1 ''APPROVED'' 50]" "ex_review 2 ''CHANGES_REQUESTED'' 100" "[]"
        "[]" "ex_labeled ''autorebase'' 100" "[]"
        "[''automerge'', ''autorebase'']" 100 100 "ex_pr [''autorebase'']"]
  by (simp add: ex_octokit_def ex_review_def ex_labeled_def labeledWithAction_def attachedComments_def
      destabilizing_def)

text \<open>
  C2 as stated fails. The action label was applied at time 100 and a review of state
  \<^verbatim>\<open>CHANGES_REQUESTED\<close> without attached comments was submitted at time 200:
  \<^verbatim>\<open>isPrReviewed\<close> returns true, and \<^verbatim>\<open>update\<close> goes on to merge the base branch into the
  head branch. It also returns true when that review carries a comment but a review
  submitted at time 50 is listed after it: the scan stops before it reaches the review
  that requests changes.
\<close>

theorem isPrReviewed_changes_requested_after_label_counterexample:
  "isPrReviewed
      (Some (ex_octokit [ex_review 1 ''CHANGES_REQUESTED'' 200] [ex_labeled ''automerge'' 100]
         (\<lambda>i. []) ''behind'' (201, ''abc123'')))
      (ex_pr [''automerge'']) [''automerge'', ''autorebase''] =
     (Returns True,
      [ListReviews ''acme'' ''widgets'' 42, ListEvents ''acme'' ''widgets'' 42,
       GetCommentsForReview ''acme'' ''widgets'' 42 1]) \<and>
   update (ex_git ''aaa111'' ''ccc333'')
      (ex_ctx (Some (ex_octokit [ex_review 1 ''CHANGES_REQUESTED'' 200] [ex_labeled ''automerge'' 100]
         (\<lambda>i. []) ''behind'' (201, ''abc123''))))
      (Some ''/tmp/work'') (Some ''https://host/acme/widgets.git'') (ex_pr [''automerge'']) =
     (Returns ''abc123'',
      [ListReviews ''acme'' ''widgets'' 42, ListEvents ''acme'' ''widgets'' 42,
       GetCommentsForReview ''acme'' ''widgets'' 42 1, PullsGet ''acme'' ''widgets'' 42,
       ReposMerge ''acme'' ''widgets'' ''gears'' ''master'', Sleep 30000]) \<and>
   isPrReviewed
      (Some (ex_octokit [ex_review 1 ''CHANGES_REQUESTED'' 200, ex_review 2 ''COMMENTED'' 50]
         [ex_labeled ''automerge'' 100] (\<lambda>i. [''please rename'']) ''behind'' (201, ''abc123'')))
      (ex_pr [''automerge'']) [''automerge'', ''autorebase''] =
     (Returns True, [ListReviews ''acme'' ''widgets'' 42, ListEvents ''acme'' ''widgets'' 42])"
  by (simp add: update_def isPrReviewed_def merge_def pullRequestState_def run_simps falsy_def
      ex_octokit_def ex_review_def ex_labeled_def ex_pr_def ex_repo_def ex_ctx_def ex_config_def
      labeledWithAction_def owner_of_def repo_of_def)

section \<open>The argument check when validation is bypassed (C3)\<close>

text \<open>
  Claim C3 does not hold of the code when the skip-validation label is present: the
  test of the client, the directory and the clone URL stands inside the branch taken
  when validation is not bypassed. With the label, a null directory and a null URL reach
  the merge executor, and a null client reaches the rebase executor; without the label
  the same null directory and URL end in the error \<^verbatim>\<open>invalid arguments!\<close>.
\<close>

theorem update_bypass_skips_argument_check:
  "update (ex_git ''aaa111'' ''ccc333'')
      (ex_ctx (Some (ex_octokit [] [] (\<lambda>i. []) ''behind'' (201, ''abc123''))))
      None None (ex_pr [''automerge'', ''skip-validation'']) =
     (Returns ''abc123'',
      [PullsGet ''acme'' ''widgets'' 42, ReposMerge ''acme'' ''widgets'' ''gears'' ''master'', Sleep 30000]) \<and>
   update (ex_git ''aaa111'' ''ccc333'') (ex_ctx None)
      (Some ''/tmp/work'') (Some ''https://host/acme/widgets.git'') (ex_pr [''autorebase'', ''skip-validation'']) =
     (Returns ''ccc333'',
      [GitClone (Some ''https://host/acme/widgets.git'') (Some ''/tmp/work'') ''gears'',
       GitFetch (Some ''/tmp/work'') ''master'',
       GitFetchUntilMergeBase (Some ''/tmp/work'') ''master'' 60000,
       GitHead (Some ''/tmp/work''), GitSha (Some ''/tmp/work'') ''master'',
       GitRebase (Some ''/tmp/work'') ''bbb222'', GitHead (Some ''/tmp/work''),
       GitPush (Some ''/tmp/work'') True ''gears'', Sleep 30000]) \<and>
   update (ex_git ''aaa111'' ''ccc333'')
      (ex_ctx (Some (ex_octokit [] [] (\<lambda>i. []) ''behind'' (201, ''abc123''))))
      None None (ex_pr [''automerge'']) =
     (Error ''invalid arguments!'',
      [ListReviews ''acme'' ''widgets'' 42, ListEvents ''acme'' ''widgets'' 42])"
  by (simp add: update_def isPrReviewed_def merge_def pullRequestState_def rebase_def run_simps
      falsy_def FETCH_TIMEOUT_def Let_def
      ex_octokit_def ex_git_def ex_pr_def ex_repo_def ex_ctx_def ex_config_def
      owner_of_def repo_of_def)

section \<open>Ambiguous action labels (C4)\<close>

text \<open>
  Claim C4, as amended. For a pull request that is not merged and whose head and base
  repository have the same full name, when more than one of its labels is in the action
  set (the first two of them being \<open>l1\<close> and \<open>l2\<close>), \<^verbatim>\<open>update\<close> throws the error
  \<^verbatim>\<open>ambiguous labels\<close> naming both, which is not the benign skip, and makes no call: no
  action is picked.
\<close>

theorem update_ambiguous_labels:
  assumes "\<not> pr_merged pr"
    and "repo_full_name (head_repo (pr_head pr)) = repo_full_name (base_repo (pr_base pr))"
    and "filter (\<lambda>l. label_name l \<in> {automerge (config ctx), autorebase (config ctx)}) (pr_labels pr)
           = l1 # l2 # rest"
  shows "update git ctx dir url pr =
    (Error (''ambiguous labels: '' @ label_name l1 @ '' + '' @ label_name l2), [])"
proof -
  from assms(3) have
    "filter (\<lambda>l. label_name l \<in> set [automerge (config ctx), autorebase (config ctx)]) (pr_labels pr)
       = l1 # l2 # rest"
    by simp
  from scanLabels_two [OF this] assms(1,2) show ?thesis
    by (simp add: update_def)
qed

theorem update_ambiguous_labels_witness:
  "update (ex_git ''aaa111'' ''ccc333'') (ex_ctx None) None None (ex_pr [''bug'', ''autorebase'', ''automerge''])
     = (Error ''ambiguous labels: autorebase + automerge'', [])"
  using update_ambiguous_labels
    [of "ex_pr [''bug'', ''autorebase'', ''automerge'']" "ex_ctx None" "\<lparr>label_name = ''autorebase''\<rparr>"
        "\<lparr>label_name = ''automerge''\<rparr>" "[]" "ex_git ''aaa111'' ''ccc333''" None None]
  by (simp add: ex_pr_def ex_ctx_def ex_config_def ex_repo_def)

text \<open>
  C4 as stated fails: an open pull request from a fork that carries both action labels
  ends in the benign skip, and so does a pull request that is already merged, since both
  tests come before the labels are read.
\<close>

theorem update_ambiguous_labels_counterexample:
  "update (ex_git ''aaa111'' ''ccc333'')
     (ex_ctx (Some (ex_octokit [] [] (\<lambda>i. []) ''clean'' (204, []))))
     (Some ''/tmp/work'') (Some ''https://host/mallory/widgets.git'')
     ((ex_pr [''automerge'', ''autorebase''])
        \<lparr>pr_head := \<lparr>head_repo = ex_fork, head_ref = ''gears'', head_sha = ''aaa111''\<rparr>\<rparr>)
     = (NeutralExitError, []) \<and>
   update (ex_git ''aaa111'' ''ccc333'')
     (ex_ctx (Some (ex_octokit [] [] (\<lambda>i. []) ''clean'' (204, []))))
     (Some ''/tmp/work'') (Some ''https://host/acme/widgets.git'')
     ((ex_pr [''automerge'', ''autorebase''])\<lparr>pr_merged := True\<rparr>)
     = (NeutralExitError, [])"
  by (simp add: update_def ex_pr_def ex_fork_def ex_repo_def)

section \<open>An approving review after the label (C5)\<close>

text \<open>
  Claim C5, as amended. Let the most recent \<^verbatim>\<open>labeled\<close> event for an action label be at
  time \<open>T\<close>, let a review of state \<^verbatim>\<open>APPROVED\<close> be submitted after \<open>T\<close>, and let no review
  listed after it (the newer ones, which the scan meets first) be submitted before \<open>T\<close>.
  If the review carries at least one attached comment, \<^verbatim>\<open>isPrReviewed\<close> returns false. If
  it carries none and no other review that is not submitted before \<open>T\<close> is destabilizing,
  \<^verbatim>\<open>isPrReviewed\<close> returns true.
\<close>

theorem isPrReviewed_approved_after_label:
  assumes "pulls_listReviews oc = Resolves (older @ r # newer)"
    and "issues_listEvents oc = Resolves (earlier @ e # later)"
    and "labeledWithAction actions e" and "ev_created_at e = Some T"
    and "\<forall>e'\<in>set later. \<not> labeledWithAction actions e'"
    and "review_state r = ''APPROVED''" and "submitted_at r = Some t" and "T < t"
    and "\<forall>r'\<in>set newer. \<not> dateBefore (submitted_at r') (Some (Some T))"
    and "\<forall>r'\<in>set (older @ r # newer). resolves (pulls_getCommentsForReview oc (review_id r'))"
  shows "(attachedComments oc r \<noteq> [] \<longrightarrow> fst (isPrReviewed (Some oc) pr actions) = Returns False) \<and>
    (attachedComments oc r = [] \<and>
     (\<forall>r'\<in>set (older @ newer). \<not> dateBefore (submitted_at r') (Some (Some T)) \<longrightarrow> \<not> destabilizing oc r')
       \<longrightarrow> fst (isPrReviewed (Some oc) pr actions) = Returns True)"
proof -
  let ?d = "Some (Some T)"
  let ?P = "\<lambda>r. \<not> dateBefore (submitted_at r) ?d"
  let ?visited = "takeWhile ?P (rev (older @ r # newer))"
  have date: "lastLabeledDate actions (rev (earlier @ e # later)) = ?d"
    using lastLabeledDate_rev [OF refl assms(3,5)] assms(4) by simp
  have reached: "?P r"
    using assms(7,8) by simp
  have visited: "?visited = rev newer @ r # takeWhile ?P (rev older)"
    using visited_reviews [OF assms(9) reached] .
  have result: "fst (isPrReviewed (Some oc) pr actions) = Returns (\<not> (\<exists>r'\<in>set ?visited. destabilizing oc r'))"
    using isPrReviewed_result [OF assms(1,2,10), of pr actions] date by simp
  have first: "fst (isPrReviewed (Some oc) pr actions) = Returns False" if "attachedComments oc r \<noteq> []"
  proof -
    from that assms(6) have "destabilizing oc r"
      by (simp add: destabilizing_def)
    moreover have "r \<in> set ?visited"
      unfolding visited by simp
    ultimately show ?thesis
      unfolding result by blast
  qed
  have second: "fst (isPrReviewed (Some oc) pr actions) = Returns True"
    if none: "attachedComments oc r = []"
      and others: "\<forall>r'\<in>set (older @ newer). ?P r' \<longrightarrow> \<not> destabilizing oc r'"
  proof -
    have "\<not> destabilizing oc r'" if "r' \<in> set ?visited" for r'
    proof -
      from that have "r' \<in> set (rev newer @ r # takeWhile ?P (rev older))"
        unfolding visited .
      then consider "r' \<in> set newer" | "r' = r" | "r' \<in> set (takeWhile ?P (rev older))"
        by auto
      then show ?thesis
      proof cases
        case 1
        with assms(9) others show ?thesis by simp
      next
        case 2
        with none assms(6) show ?thesis by (simp add: destabilizing_def)
      next
        case 3
        then have "r' \<in> set older" and "?P r'"
          by (auto dest: set_takeWhileD)
        with others show ?thesis by simp
      qed
    qed
    then show ?thesis
      unfolding result by blast
  qed
  from first second show ?thesis by blast
qed

theorem isPrReviewed_approved_after_label_witness:
  "fst (isPrReviewed
      (Some (ex_octokit [ex_review 1 ''CHANGES_REQUESTED'' 50, ex_review 2 ''APPROVED'' 200]
         [ex_labeled ''automerge'' 10, ex_labeled ''automerge'' 100]
         (\<lambda>i. if i = 1 then [''please rename''] else []) ''clean'' (204, [])))
      (ex_pr [''automerge'']) [''automerge'', ''autorebase'']) = Returns True \<and>
   fst (isPrReviewed
      (Some (ex_octokit [ex_review 1 ''CHANGES_REQUESTED'' 50, ex_review 2 ''APPROVED'' 200]
         [ex_labeled ''automerge'' 10, ex_labeled ''automerge'' 100]
         (\<lambda>i. [''please rename'']) ''clean'' (204, [])))
      (ex_pr [''automerge'']) [''automerge'', ''autorebase'']) = Returns False"
  using
    isPrReviewed_approved_after_label
      [of "ex_octokit [ex_review 1 ''CHANGES_REQUESTED'' 50, ex_review 2 ''APPROVED'' 200]
         [ex_labeled ''automerge'' 10, ex_labeled ''automerge'' 100]
         (\<lambda>i. if i = 1 then [''please rename''] else []) ''clean'' (204, [])"
        "[ex_review 1 ''CHANGES_REQUESTED'' 50]" "ex_review 2 ''APPROVED'' 200" "[]"
        "[ex_labeled ''automerge'' 10]" "ex_labeled ''automerge'' 100" "[]"
        "[''automerge'', ''autorebase'']" 100 200 "ex_pr [''automerge'']"]
    isPrReviewed_approved_after_label
      [of "ex_octokit [ex_review 1 ''CHANGES_REQUESTED'' 50, ex_review 2 ''APPROVED'' 200]
         [ex_labeled ''automerge'' 10, ex_labeled ''automerge'' 100]
         (\<lambda>i. [''please rename'']) ''clean'' (204, [])"
        "[ex_review 1 ''CHANGES_REQUESTED'' 50]" "ex_review 2 ''APPROVED'' 200" "[]"
        "[ex_labeled ''automerge'' 10]" "ex_labeled ''automerge'' 100" "[]"
        "[''automerge'', ''autorebase'']" 100 200 "ex_pr [''automerge'']"]
  by (simp add: ex_octokit_def ex_review_def ex_labeled_def labeledWithAction_def attachedComments_def
      destabilizing_def)

text \<open>
  C5 as stated fails in two ways, each with an approving review that carries a comment
  and is submitted after an action-label event, and \<^verbatim>\<open>isPrReviewed\<close> returning true.
  First: the label was applied at time 10 and again at time 100, the review was submitted
  at time 50, after the first event but before the most recent one. Second: the label was
  applied at time 100 and the review submitted at time 200, but a review submitted at time
  50 is listed after it, so the scan stops before it reaches the approving review.
\<close>

theorem isPrReviewed_approved_after_label_counterexample:
  "fst (isPrReviewed
      (Some (ex_octokit [ex_review 1 ''APPROVED'' 50]
         [ex_labeled ''automerge'' 10, ex_labeled ''automerge'' 100]
         (\<lambda>i. [''please rename'']) ''clean'' (204, [])))
      (ex_pr [''automerge'']) [''automerge'', ''autorebase'']) = Returns True \<and>
   fst (isPrReviewed
      (Some (ex_octokit [ex_review 1 ''APPROVED'' 200, ex_review 2 ''COMMENTED'' 50]
         [ex_labeled ''automerge'' 100]
         (\<lambda>i. [''please rename'']) ''clean'' (204, [])))
      (ex_pr [''automerge'']) [''automerge'', ''autorebase'']) = Returns True"
  by (simp add: isPrReviewed_def run_simps ex_octokit_def ex_review_def ex_labeled_def
      labeledWithAction_def)

section \<open>The merge executor (C6)\<close>

text \<open>
  Claim C6. With the freshly fetched \<^verbatim>\<open>mergeable_state\<close>: for \<^verbatim>\<open>clean\<close> and \<^verbatim>\<open>has_hooks\<close>
  \<^verbatim>\<open>merge\<close> returns the head SHA of the pull request after the single state request; for
  \<^verbatim>\<open>behind\<close> it sends one merge request and returns the head SHA when the platform
  answers with status 204, and otherwise the SHA the platform reports, after the settle
  delay; for every other state it throws the benign skip and the state request is the
  only call made.
\<close>

theorem merge_by_mergeable_state:
  assumes "pulls_get oc = Resolves state"
  shows "(state = ''clean'' \<or> state = ''has_hooks'' \<longrightarrow>
      merge (Some oc) pr =
        (Returns (head_sha (pr_head pr)), [PullsGet (owner_of pr) (repo_of pr) (pr_number pr)])) \<and>
    (state = ''behind'' \<longrightarrow>
      (\<forall>status sha. repos_merge oc = Resolves (status, sha) \<longrightarrow>
        merge (Some oc) pr =
          (if status = 204
           then (Returns (head_sha (pr_head pr)),
                 [PullsGet (owner_of pr) (repo_of pr) (pr_number pr),
                  ReposMerge (owner_of pr) (repo_of pr) (head_ref (pr_head pr)) (base_ref (pr_base pr))])
           else (Returns sha,
                 [PullsGet (owner_of pr) (repo_of pr) (pr_number pr),
                  ReposMerge (owner_of pr) (repo_of pr) (head_ref (pr_head pr)) (base_ref (pr_base pr)),
                  Sleep 30000])))) \<and>
    (state \<noteq> ''behind'' \<and> state \<noteq> ''clean'' \<and> state \<noteq> ''has_hooks'' \<longrightarrow>
      merge (Some oc) pr = (NeutralExitError, [PullsGet (owner_of pr) (repo_of pr) (pr_number pr)]))"
  using assms by (auto simp: merge_def pullRequestState_def run_simps)

theorem merge_by_mergeable_state_witness:
  "merge (Some (ex_octokit [] [] (\<lambda>i. []) ''has_hooks'' (201, ''abc123''))) (ex_pr [''automerge'']) =
     (Returns ''aaa111'', [PullsGet ''acme'' ''widgets'' 42]) \<and>
   merge (Some (ex_octokit [] [] (\<lambda>i. []) ''behind'' (204, []))) (ex_pr [''automerge'']) =
     (Returns ''aaa111'', [PullsGet ''acme'' ''widgets'' 42, ReposMerge ''acme'' ''widgets'' ''gears'' ''master'']) \<and>
   merge (Some (ex_octokit [] [] (\<lambda>i. []) ''behind'' (201, ''abc123''))) (ex_pr [''automerge'']) =
     (Returns ''abc123'',
      [PullsGet ''acme'' ''widgets'' 42, ReposMerge ''acme'' ''widgets'' ''gears'' ''master'', Sleep 30000]) \<and>
   merge (Some (ex_octokit [] [] (\<lambda>i. []) ''dirty'' (201, ''abc123''))) (ex_pr [''automerge'']) =
     (NeutralExitError, [PullsGet ''acme'' ''widgets'' 42])"
  using
    merge_by_mergeable_state [of "ex_octokit [] [] (\<lambda>i. []) ''has_hooks'' (201, ''abc123'')" "''has_hooks''"
      "ex_pr [''automerge'']"]
    merge_by_mergeable_state [of "ex_octokit [] [] (\<lambda>i. []) ''behind'' (204, [])" "''behind''"
      "ex_pr [''automerge'']"]
    merge_by_mergeable_state [of "ex_octokit [] [] (\<lambda>i. []) ''behind'' (201, ''abc123'')" "''behind''"
      "ex_pr [''automerge'']"]
    merge_by_mergeable_state [of "ex_octokit [] [] (\<lambda>i. []) ''dirty'' (201, ''abc123'')" "''dirty''"
      "ex_pr [''automerge'']"]
  by (simp add: ex_octokit_def ex_pr_def ex_repo_def owner_of_def repo_of_def)


section \<open>The rebase executor and a changed HEAD (C7)\<close>

text \<open>
  Claim C7. When clone and the two fetches succeed and the local HEAD read after them
  differs from the head SHA recorded in the pull request, \<^verbatim>\<open>rebase\<close> throws the benign
  skip, and the calls it made are exactly clone, fetch, fetch-until-merge-base and the
  reading of HEAD: no rebase and no push.
\<close>

theorem rebase_head_changed:
  assumes "git_clone git = Resolves ()" and "git_fetch git = Resolves ()"
    and "git_fetchUntilMergeBase git = Resolves ()"
    and "git_head git = Resolves head" and "head \<noteq> head_sha (pr_head pr)"
  shows "rebase git dir url pr =
    (NeutralExitError,
     [GitClone url dir (head_ref (pr_head pr)), GitFetch dir (base_ref (pr_base pr)),
      GitFetchUntilMergeBase dir (base_ref (pr_base pr)) FETCH_TIMEOUT, GitHead dir])"
  using assms by (simp add: rebase_def run_simps Let_def)

theorem rebase_head_changed_witness:
  "rebase (ex_git ''fff999'' ''ccc333'') (Some ''/tmp/work'') (Some ''https://host/acme/widgets.git'')
     (ex_pr [''autorebase'']) =
    (NeutralExitError,
     [GitClone (Some ''https://host/acme/widgets.git'') (Some ''/tmp/work'') ''gears'',
      GitFetch (Some ''/tmp/work'') ''master'',
      GitFetchUntilMergeBase (Some ''/tmp/work'') ''master'' 60000, GitHead (Some ''/tmp/work'')])"
  using rebase_head_changed
    [of "ex_git ''fff999'' ''ccc333''" "''fff999''" "ex_pr [''autorebase'']" "Some ''/tmp/work''"
        "Some ''https://host/acme/widgets.git''"]
  by (simp add: ex_git_def ex_pr_def FETCH_TIMEOUT_def)


section \<open>An unstable review drops the action label (C8)\<close>

text \<open>
  Claim C8. For a pull request that reaches validation (not merged, not from a fork,
  exactly one action label, no skip-validation label) and whose review is found unstable,
  when the platform accepts the two requests: after the review queries of
  \<^verbatim>\<open>isPrReviewed\<close>, \<^verbatim>\<open>update\<close> sends one label update, with the names of the original
  labels outside the action set in their original order, then one comment with the fixed
  text, and throws the benign skip. These are all the calls: no label is added again, and
  neither the merge nor the rebase executor is started.
\<close>

theorem update_unstable_review:
  assumes "\<not> pr_merged pr"
    and "repo_full_name (head_repo (pr_head pr)) = repo_full_name (base_repo (pr_base pr))"
    and "filter (\<lambda>l. label_name l \<in> {automerge (config ctx), autorebase (config ctx)}) (pr_labels pr) = [l]"
    and "skipAdvancedApprovalValidation (config ctx) \<notin> set (map label_name (pr_labels pr))"
    and "octokit ctx = Some oc"
    and "isPrReviewed (Some oc) pr [automerge (config ctx), autorebase (config ctx)] = (Returns False, cs)"
    and "issues_update oc = Resolves ()"
    and "issues_createComment oc = Resolves ()"
  shows "update git ctx dir url pr =
      (NeutralExitError,
       cs @ [IssuesUpdate (owner_of pr) (repo_of pr) (pr_number pr)
               (filter (\<lambda>n. n \<notin> {automerge (config ctx), autorebase (config ctx)})
                  (map label_name (pr_labels pr))),
             CreateComment (owner_of pr) (repo_of pr) (pr_number pr) AUTOMERGE_LABEL_DROPPED]) \<and>
    list_all isReviewQuery cs"
proof -
  let ?actions = "[automerge (config ctx), autorebase (config ctx)]"
  from assms(3) have "filter (\<lambda>l. label_name l \<in> set ?actions) (pr_labels pr) = [l]"
    by simp
  from scanLabels_one [OF this, of "skipAdvancedApprovalValidation (config ctx)" False] assms(4)
  have scan: "scanLabels ?actions (skipAdvancedApprovalValidation (config ctx)) (pr_labels pr) None False =
      Inr (Some (label_name l), False)"
    by simp
  have kept: "map label_name (filter (\<lambda>l. label_name l \<notin> set ?actions) (pr_labels pr)) =
      filter (\<lambda>n. n \<notin> {automerge (config ctx), autorebase (config ctx)}) (map label_name (pr_labels pr))"
    by (simp add: filter_map comp_def)
  have drop: "dropAutoMergeLabel (Some oc) pr ?actions =
      (Returns (),
       [IssuesUpdate (owner_of pr) (repo_of pr) (pr_number pr)
          (filter (\<lambda>n. n \<notin> {automerge (config ctx), autorebase (config ctx)})
             (map label_name (pr_labels pr))),
        CreateComment (owner_of pr) (repo_of pr) (pr_number pr) AUTOMERGE_LABEL_DROPPED])"
    unfolding dropAutoMergeLabel_def Let_def kept
    using assms(7,8) by (simp add: run_simps)
  have queries: "list_all isReviewQuery cs"
    using isPrReviewed_calls [of "Some oc" pr ?actions] assms(6) by simp
  have "update git ctx dir url pr =
      (NeutralExitError,
       cs @ [IssuesUpdate (owner_of pr) (repo_of pr) (pr_number pr)
               (filter (\<lambda>n. n \<notin> {automerge (config ctx), autorebase (config ctx)})
                  (map label_name (pr_labels pr))),
             CreateComment (owner_of pr) (repo_of pr) (pr_number pr) AUTOMERGE_LABEL_DROPPED])"
    unfolding update_def Let_def
    using assms(1,2,5,6) scan drop by (simp add: run_simps)
  with queries show ?thesis by simp
qed

theorem update_unstable_review_witness:
  "update (ex_git ''aaa111'' ''ccc333'')
     (ex_ctx (Some (ex_octokit [ex_review 1 ''APPROVED'' 200] [ex_labeled ''automerge'' 100]
        (\<lambda>i. [''please rename'']) ''behind'' (201, ''abc123''))))
     (Some ''/tmp/work'') (Some ''https://host/acme/widgets.git'') (ex_pr [''bug'', ''automerge'', ''docs'']) =
   (NeutralExitError,
    [ListReviews ''acme'' ''widgets'' 42, ListEvents ''acme'' ''widgets'' 42,
     GetCommentsForReview ''acme'' ''widgets'' 42 1,
     IssuesUpdate ''acme'' ''widgets'' 42 [''bug'', ''docs''],
     CreateComment ''acme'' ''widgets'' 42 AUTOMERGE_LABEL_DROPPED])"
proof -
  let ?oc = "ex_octokit [ex_review 1 ''APPROVED'' 200] [ex_labeled ''automerge'' 100]
        (\<lambda>i. [''please rename'']) ''behind'' (201, ''abc123'')"
  have reviewed: "isPrReviewed (Some ?oc) (ex_pr [''bug'', ''automerge'', ''docs''])
      [automerge (config (ex_ctx (Some ?oc))), autorebase (config (ex_ctx (Some ?oc)))] =
    (Returns False,
     [ListReviews ''acme'' ''widgets'' 42, ListEvents ''acme'' ''widgets'' 42,
      GetCommentsForReview ''acme'' ''widgets'' 42 1])"
    by (simp add: isPrReviewed_def run_simps ex_octokit_def ex_review_def ex_labeled_def ex_pr_def
        ex_repo_def ex_ctx_def ex_config_def labeledWithAction_def owner_of_def repo_of_def)
  from update_unstable_review
    [of "ex_pr [''bug'', ''automerge'', ''docs'']" "ex_ctx (Some ?oc)" "\<lparr>label_name = ''automerge''\<rparr>" ?oc
        "[ListReviews ''acme'' ''widgets'' 42, ListEvents ''acme'' ''widgets'' 42,
          GetCommentsForReview ''acme'' ''widgets'' 42 1]"
        "ex_git ''aaa111'' ''ccc333''" "Some ''/tmp/work''" "Some ''https://host/acme/widgets.git''",
     OF _ _ _ _ _ reviewed]
  show ?thesis
    by (simp add: ex_pr_def ex_ctx_def ex_config_def ex_repo_def ex_octokit_def owner_of_def repo_of_def)
qed

section \<open>Pull requests from forks (C9)\<close>

text \<open>
  Claim C9. When the full names of the head and the base repository differ, \<^verbatim>\<open>update\<close>
  throws the benign skip and makes no call at all, whatever the labels, the reviews, the
  client, the directory and the URL are.
\<close>

theorem update_fork_skipped:
  assumes "repo_full_name (head_repo (pr_head pr)) \<noteq> repo_full_name (base_repo (pr_base pr))"
  shows "update git ctx dir url pr = (NeutralExitError, [])"
  using assms by (simp add: update_def)

theorem update_fork_skipped_witness:
  "update (ex_git ''aaa111'' ''ccc333'') (ex_ctx None) None None
     ((ex_pr [''automerge'', ''autorebase''])
        \<lparr>pr_head := \<lparr>head_repo = ex_fork, head_ref = ''gears'', head_sha = ''aaa111''\<rparr>\<rparr>)
   = (NeutralExitError, [])"
  using update_fork_skipped
    [of "(ex_pr [''automerge'', ''autorebase''])
        \<lparr>pr_head := \<lparr>head_repo = ex_fork, head_ref = ''gears'', head_sha = ''aaa111''\<rparr>\<rparr>"
        "ex_git ''aaa111'' ''ccc333''" "ex_ctx None" None None]
  by (simp add: ex_pr_def ex_fork_def ex_repo_def)


section \<open>Pull requests that are not open (C10)\<close>

text \<open>
  Claim C10. When the state of the pull request is not \<^verbatim>\<open>open\<close>, the per-pull-request
  handler throws the benign skip and makes no call: neither the label checks of
  \<^verbatim>\<open>skipPullRequest\<close> nor \<^verbatim>\<open>update\<close> have any influence on the result.
\<close>

theorem updateAndMergePullRequest_not_open:
  assumes "pr_state pr \<noteq> ''open''"
  shows "updateAndMergePullRequest tmpdir mergePullRequest git ctx pr = (NeutralExitError, [])"
  using assms by (simp add: updateAndMergePullRequest_def)

theorem updateAndMergePullRequest_not_open_witness:
  "updateAndMergePullRequest (\<lambda>f. f (Some ''/tmp/work'')) (\<lambda>c p h. (Returns (), []))
     (ex_git ''aaa111'' ''ccc333'') (ex_ctx None) ((ex_pr [''wip'', ''automerge''])\<lparr>pr_state := ''closed''\<rparr>)
   = (NeutralExitError, [])"
  using updateAndMergePullRequest_not_open
    [of "(ex_pr [''wip'', ''automerge''])\<lparr>pr_state := ''closed''\<rparr>" "\<lambda>f. f (Some ''/tmp/work'')"
        "\<lambda>c p h. (Returns (), [])" "ex_git ''aaa111'' ''ccc333''" "ex_ctx None"]
  by (simp add: ex_pr_def)

section \<open>Further properties of the decision engine\<close>

text \<open>
  The argument check on the validated path. For a pull request that reaches validation
  without the skip-validation label and whose review is stable, a null or empty directory
  or clone URL makes \<^verbatim>\<open>update\<close> throw the error \<^verbatim>\<open>invalid arguments!\<close> after the review
  queries, before either executor is started.
\<close>

theorem update_validated_checks_arguments:
  assumes "\<not> pr_merged pr"
    and "repo_full_name (head_repo (pr_head pr)) = repo_full_name (base_repo (pr_base pr))"
    and "filter (\<lambda>l. label_name l \<in> {automerge (config ctx), autorebase (config ctx)}) (pr_labels pr) = [l]"
    and "skipAdvancedApprovalValidation (config ctx) \<notin> set (map label_name (pr_labels pr))"
    and "isPrReviewed (octokit ctx) pr [automerge (config ctx), autorebase (config ctx)] = (Returns True, cs)"
    and "falsy dir \<or> falsy url"
  shows "update git ctx dir url pr = (Error ''invalid arguments!'', cs)"
proof -
  let ?actions = "[automerge (config ctx), autorebase (config ctx)]"
  from assms(3) have "filter (\<lambda>l. label_name l \<in> set ?actions) (pr_labels pr) = [l]"
    by simp
  from scanLabels_one [OF this, of "skipAdvancedApprovalValidation (config ctx)" False] assms(4)
  have scan: "scanLabels ?actions (skipAdvancedApprovalValidation (config ctx)) (pr_labels pr) None False =
      Inr (Some (label_name l), False)"
    by simp
  show ?thesis
    unfolding update_def Let_def
    using assms(1,2,5,6) scan by (simp add: run_simps)
qed

theorem update_validated_checks_arguments_witness:
  "update (ex_git ''aaa111'' ''ccc333'')
      (ex_ctx (Some (ex_octokit [] [] (\<lambda>i. []) ''behind'' (201, ''abc123''))))
      (Some ''/tmp/work'') None (ex_pr [''automerge'']) =
     (Error ''invalid arguments!'',
      [ListReviews ''acme'' ''widgets'' 42, ListEvents ''acme'' ''widgets'' 42])"
proof -
  let ?oc = "ex_octokit [] [] (\<lambda>i. []) ''behind'' (201, ''abc123'')"
  have reviewed: "isPrReviewed (octokit (ex_ctx (Some ?oc))) (ex_pr [''automerge''])
      [automerge (config (ex_ctx (Some ?oc))), autorebase (config (ex_ctx (Some ?oc)))] =
    (Returns True, [ListReviews ''acme'' ''widgets'' 42, ListEvents ''acme'' ''widgets'' 42])"
    by (simp add: isPrReviewed_def run_simps ex_octokit_def ex_pr_def
        ex_repo_def ex_ctx_def ex_config_def owner_of_def repo_of_def)
  from update_validated_checks_arguments
    [of "ex_pr [''automerge'']" "ex_ctx (Some ?oc)" "\<lparr>label_name = ''automerge''\<rparr>"
        "[ListReviews ''acme'' ''widgets'' 42, ListEvents ''acme'' ''widgets'' 42]"
        "Some ''/tmp/work''" None "ex_git ''aaa111'' ''ccc333''", OF _ _ _ _ reviewed]
  show ?thesis
    by (simp add: ex_pr_def ex_ctx_def ex_config_def ex_repo_def falsy_def)
qed

text \<open>
  No action label. When no label of the pull request is in the action set, \<^verbatim>\<open>update\<close>
  throws the benign skip and makes no call.
\<close>

theorem update_no_action_label:
  assumes "filter (\<lambda>l. label_name l \<in> {automerge (config ctx), autorebase (config ctx)}) (pr_labels pr) = []"
  shows "update git ctx dir url pr = (NeutralExitError, [])"
proof -
  let ?actions = "[automerge (config ctx), autorebase (config ctx)]"
  from assms have "filter (\<lambda>l. label_name l \<in> set ?actions) (pr_labels pr) = []"
    by simp
  from scanLabels_rest [OF this, of "skipAdvancedApprovalValidation (config ctx)" None False]
  show ?thesis
    by (simp add: update_def)
qed

theorem update_no_action_label_witness:
  "update (ex_git ''aaa111'' ''ccc333'')
      (ex_ctx (Some (ex_octokit [] [] (\<lambda>i. []) ''behind'' (201, ''abc123''))))
      (Some ''/tmp/work'') (Some ''https://host/acme/widgets.git'') (ex_pr [''bug'', ''skip-validation'']) =
     (NeutralExitError, [])"
  using update_no_action_label
    [of "ex_ctx (Some (ex_octokit [] [] (\<lambda>i. []) ''behind'' (201, ''abc123'')))"
        "ex_pr [''bug'', ''skip-validation'']" "ex_git ''aaa111'' ''ccc333''"
        "Some ''/tmp/work''" "Some ''https://host/acme/widgets.git''"]
  by (simp add: ex_pr_def ex_ctx_def ex_config_def)

text \<open>
  A rebase that changes nothing. When every git call succeeds, the local HEAD equals the
  recorded head SHA and is the same after the rebase, \<^verbatim>\<open>rebase\<close> returns that SHA, and
  nothing is pushed.
\<close>

theorem rebase_already_up_to_date:
  assumes "git_clone git = Resolves ()" and "git_fetch git = Resolves ()"
    and "git_fetchUntilMergeBase git = Resolves ()"
    and "git_head git = Resolves (head_sha (pr_head pr))"
    and "git_sha git = Resolves onto" and "git_rebase git = Resolves ()"
    and "git_head_after git = Resolves (head_sha (pr_head pr))"
  shows "rebase git dir url pr =
    (Returns (head_sha (pr_head pr)),
     [GitClone url dir (head_ref (pr_head pr)), GitFetch dir (base_ref (pr_base pr)),
      GitFetchUntilMergeBase dir (base_ref (pr_base pr)) FETCH_TIMEOUT, GitHead dir,
      GitSha dir (base_ref (pr_base pr)), GitRebase dir onto, GitHead dir])"
  using assms by (simp add: rebase_def run_simps Let_def)

theorem rebase_already_up_to_date_witness:
  "rebase (ex_git ''aaa111'' ''aaa111'') (Some ''/tmp/work'') (Some ''https://host/acme/widgets.git'')
     (ex_pr [''autorebase'']) =
    (Returns ''aaa111'',
     [GitClone (Some ''https://host/acme/widgets.git'') (Some ''/tmp/work'') ''gears'',
      GitFetch (Some ''/tmp/work'') ''master'',
      GitFetchUntilMergeBase (Some ''/tmp/work'') ''master'' 60000, GitHead (Some ''/tmp/work''),
      GitSha (Some ''/tmp/work'') ''master'', GitRebase (Some ''/tmp/work'') ''bbb222'',
      GitHead (Some ''/tmp/work'')])"
  using rebase_already_up_to_date
    [of "ex_git ''aaa111'' ''aaa111''" "ex_pr [''autorebase'']" "''bbb222''" "Some ''/tmp/work''"
        "Some ''https://host/acme/widgets.git''"]
  by (simp add: ex_git_def ex_pr_def FETCH_TIMEOUT_def)

text \<open>
  A destabilizing review after the label. Let the most recent \<^verbatim>\<open>labeled\<close> event for an
  action label be at time \<open>T\<close>. A review submitted at or after \<open>T\<close> that the scan reaches
  and that is destabilizing (a state other than \<^verbatim>\<open>CHANGES_REQUESTED\<close> and \<^verbatim>\<open>APPROVED\<close>, or
  one of these two states with at least one attached comment) makes \<^verbatim>\<open>isPrReviewed\<close>
  return false.
\<close>

theorem isPrReviewed_destabilizing_after_label:
  assumes "pulls_listReviews oc = Resolves (older @ r # newer)"
    and "issues_listEvents oc = Resolves (earlier @ e # later)"
    and "labeledWithAction actions e" and "ev_created_at e = Some T"
    and "\<forall>e'\<in>set later. \<not> labeledWithAction actions e'"
    and "submitted_at r = Some t" and "T \<le> t"
    and "\<forall>r'\<in>set newer. \<not> dateBefore (submitted_at r') (Some (Some T))"
    and "\<forall>r'\<in>set (older @ r # newer). resolves (pulls_getCommentsForReview oc (review_id r'))"
    and "destabilizing oc r"
  shows "fst (isPrReviewed (Some oc) pr actions) = Returns False"
proof -
  let ?d = "Some (Some T)"
  let ?P = "\<lambda>r. \<not> dateBefore (submitted_at r) ?d"
  let ?visited = "takeWhile ?P (rev (older @ r # newer))"
  have date: "lastLabeledDate actions (rev (earlier @ e # later)) = ?d"
    using lastLabeledDate_rev [OF refl assms(3,5)] assms(4) by simp
  have reached: "?P r"
    using assms(6,7) by simp
  have visited: "?visited = rev newer @ r # takeWhile ?P (rev older)"
    using visited_reviews [OF assms(8) reached] .
  have result: "fst (isPrReviewed (Some oc) pr actions) = Returns (\<not> (\<exists>r'\<in>set ?visited. destabilizing oc r'))"
    using isPrReviewed_result [OF assms(1,2,9), of pr actions] date by simp
  have "r \<in> set ?visited"
    unfolding visited by simp
  with assms(10) show ?thesis
    unfolding result by blast
qed

theorem isPrReviewed_destabilizing_after_label_witness:
  "fst (isPrReviewed
      (Some (ex_octokit [ex_review 1 ''CHANGES_REQUESTED'' 100] [ex_labeled ''autorebase'' 100]
         (\<lambda>i. [''please rename'']) ''clean'' (204, [])))
      (ex_pr [''autorebase'']) [''automerge'', ''autorebase'']) = Returns False \<and>
   fst (isPrReviewed
      (Some (ex_octokit [ex_review 1 ''COMMENTED'' 150] [ex_labeled ''autorebase'' 100]
         (\<lambda>i. []) ''clean'' (204, [])))
      (ex_pr [''autorebase'']) [''automerge'', ''autorebase'']) = Returns False"
  using
    isPrReviewed_destabilizing_after_label
      [of "ex_octokit [ex_review 1 ''CHANGES_REQUESTED'' 100] [ex_labeled ''autorebase'' 100]
         (\<lambda>i. [''please rename'']) ''clean'' (204, [])"
        "[]" "ex_review 1 ''CHANGES_REQUESTED'' 100" "[]" "[]" "ex_labeled ''autorebase'' 100" "[]"
        "[''automerge'', ''autorebase'']" 100 100 "ex_pr [''autorebase'']"]
    isPrReviewed_destabilizing_after_label
      [of "ex_octokit [ex_review 1 ''COMMENTED'' 150] [ex_labeled ''autorebase'' 100]
         (\<lambda>i. []) ''clean'' (204, [])"
        "[]" "ex_review 1 ''COMMENTED'' 150" "[]" "[]" "ex_labeled ''autorebase'' 100" "[]"
        "[''automerge'', ''autorebase'']" 100 150 "ex_pr [''autorebase'']"]
  by (simp add: ex_octokit_def ex_review_def ex_labeled_def labeledWithAction_def attachedComments_def
      destabilizing_def)

text \<open>
  Reviews before the label. When the newest review was submitted before the most recent
  \<^verbatim>\<open>labeled\<close> event for an action label, the scan stops at once: \<^verbatim>\<open>isPrReviewed\<close> returns
  true whatever the reviews are, and requests the comments of none of them.
\<close>

theorem isPrReviewed_review_before_label:
  assumes "pulls_listReviews oc = Resolves (older @ [r])"
    and "issues_listEvents oc = Resolves (earlier @ e # later)"
    and "labeledWithAction actions e" and "ev_created_at e = Some T"
    and "\<forall>e'\<in>set later. \<not> labeledWithAction actions e'"
    and "submitted_at r = Some t" and "t < T"
  shows "isPrReviewed (Some oc) pr actions =
    (Returns True,
     [ListReviews (owner_of pr) (repo_of pr) (pr_number pr), ListEvents (owner_of pr) (repo_of pr) (pr_number pr)])"
proof -
  have date: "lastLabeledDate actions (rev (earlier @ e # later)) = Some (Some T)"
    using lastLabeledDate_rev [OF refl assms(3,5)] assms(4) by simp
  have "reviewLoop oc pr (Some (Some T)) (rev (older @ [r])) False = (Returns False, [])"
    using assms(6,7) by simp
  with date assms(1,2) show ?thesis
    by (simp add: isPrReviewed_def run_simps)
qed

theorem isPrReviewed_review_before_label_witness:
  "isPrReviewed
      (Some (ex_octokit [ex_review 1 ''COMMENTED'' 20, ex_review 2 ''CHANGES_REQUESTED'' 50]
         [ex_labeled ''automerge'' 100] (\<lambda>i. [''please rename'']) ''clean'' (204, [])))
      (ex_pr [''automerge'']) [''automerge'', ''autorebase''] =
    (Returns True, [ListReviews ''acme'' ''widgets'' 42, ListEvents ''acme'' ''widgets'' 42])"
  using isPrReviewed_review_before_label
      [of "ex_octokit [ex_review 1 ''COMMENTED'' 20, ex_review 2 ''CHANGES_REQUESTED'' 50]
         [ex_labeled ''automerge'' 100] (\<lambda>i. [''please rename'']) ''clean'' (204, [])"
        "[ex_review 1 ''COMMENTED'' 20]" "ex_review 2 ''CHANGES_REQUESTED'' 50" "[]"
        "ex_labeled ''automerge'' 100" "[]" "[''automerge'', ''autorebase'']" 100 50 "ex_pr [''automerge'']"]
  by (simp add: ex_octokit_def ex_review_def ex_labeled_def labeledWithAction_def ex_pr_def ex_repo_def
      owner_of_def repo_of_def)

end
